theory Spec2Isabelle
  imports Complex_Main "HOL-Library.FSet"
begin

section \<open>The data model of \<^verbatim>\<open>main.py\<close>\<close>

text \<open>
  The bot keeps three module-level variables: the set \<^verbatim>\<open>USERS\<close>, the dictionary
  \<^verbatim>\<open>LAST_ACTION_AT\<close> and the optional string \<^verbatim>\<open>AUDIO_FILE_ID\<close>. They are the fields of
  the record \<open>state\<close>; every handler takes the state and returns the new one.
  User identifiers are Python integers (\<open>int\<close>); the clock \<^verbatim>\<open>time.time()\<close> is a number of
  seconds, modelled as a real number that the caller passes in, so that the difference
  \<^verbatim>\<open>now - last\<close> is the exact one (two clock values that are close to each other, and a
  clock value and the default 0, subtract without rounding in floating point as well).
\<close>

record state =
  USERS :: "int fset"
  LAST_ACTION_AT :: "int \<rightharpoonup> real"
  AUDIO_FILE_ID :: "string option"

definition initial_state :: state where
  "initial_state = \<lparr>USERS = {||}, LAST_ACTION_AT = Map.empty, AUDIO_FILE_ID = None\<rparr>"

record config =
  token :: string
  admin_id :: "int option"
  pre_save_url :: string
  channel_url :: string
  audio_path :: string

definition THROTTLE_SECONDS :: real where
  "THROTTLE_SECONDS = 5"

subsection \<open>The throttle gate\<close>

text \<open>
  \<^verbatim>\<open>throttled(user_id)\<close> reads the clock, looks the user up with default \<open>0\<close>, and either
  returns \<^verbatim>\<open>True\<close> with the dictionary untouched or stores the clock value and returns
  \<^verbatim>\<open>False\<close>. The result \<^verbatim>\<open>True\<close> means that the action is rejected.
\<close>

definition throttled :: "real \<Rightarrow> int \<Rightarrow> (int \<rightharpoonup> real) \<Rightarrow> bool \<times> (int \<rightharpoonup> real)" where
  "throttled now user_id last_action_at =
     (let last = (case last_action_at user_id of None \<Rightarrow> 0 | Some t \<Rightarrow> t) in
      if now - last < THROTTLE_SECONDS then (True, last_action_at)
      else (False, last_action_at(user_id \<mapsto> now)))"

text \<open>A run of throttle checks, each with its clock value and its user, oldest first.\<close>

fun throttle_calls :: "(real \<times> int) list \<Rightarrow> (int \<rightharpoonup> real) \<Rightarrow> (int \<rightharpoonup> real)" where
  "throttle_calls [] m = m"
| "throttle_calls ((t, v) # cs) m = throttle_calls cs (snd (throttled t v m))"

subsection \<open>Python strings\<close>

text \<open>
  A Python \<^verbatim>\<open>str\<close> is modelled by \<open>string\<close>: the character with number \<open>n\<close> stands for the
  code point \<open>n\<close>, so the model covers the strings whose code points are below 256.
  On these, \<^verbatim>\<open>str.isspace\<close> holds for 9 to 13, 28 to 32, 133 and 160; \<^verbatim>\<open>str.lower\<close> moves
  the capital letters 65 to 90 and 192 to 222 (without the multiplication sign 215) up by 32;
  \<^verbatim>\<open>str.isdigit\<close> holds for the decimal digits 48 to 57 and for the superscript digits
  178, 179 and 185.
\<close>

definition isspace :: "char \<Rightarrow> bool" where
  "isspace c = (let n = (of_char c :: nat) in
     (9 \<le> n \<and> n \<le> 13) \<or> (28 \<le> n \<and> n \<le> 32) \<or> n = 133 \<or> n = 160)"

definition strip :: "string \<Rightarrow> string" where
  "strip s = rev (dropWhile isspace (rev (dropWhile isspace s)))"

definition lower_char :: "char \<Rightarrow> char" where
  "lower_char c = (let n = (of_char c :: nat) in
     if (65 \<le> n \<and> n \<le> 90) \<or> (192 \<le> n \<and> n \<le> 222 \<and> n \<noteq> 215) then char_of (n + 32) else c)"

definition lower :: "string \<Rightarrow> string" where
  "lower s = map lower_char s"

definition isdecimal_char :: "char \<Rightarrow> bool" where
  "isdecimal_char c = (let n = (of_char c :: nat) in 48 \<le> n \<and> n \<le> 57)"

definition isdigit_char :: "char \<Rightarrow> bool" where
  "isdigit_char c = (let n = (of_char c :: nat) in
     (48 \<le> n \<and> n \<le> 57) \<or> n = 178 \<or> n = 179 \<or> n = 185)"


subsection \<open>Exceptions\<close>

text \<open>
  The exceptions that can occur: the \<^verbatim>\<open>RuntimeError\<close> of \<^verbatim>\<open>load_config\<close>, the
  \<^verbatim>\<open>ValueError\<close> of \<^verbatim>\<open>int\<close>, the \<^verbatim>\<open>AttributeError\<close> of an attribute read on \<^verbatim>\<open>None\<close>
  (with the attribute's name), any exception class derived from \<^verbatim>\<open>Exception\<close> that a call
  of the messaging library raises (\<open>SendError\<close>, with its message), and
  \<^verbatim>\<open>asyncio.CancelledError\<close>, which derives from \<^verbatim>\<open>BaseException\<close> only and is therefore
  not caught by \<^verbatim>\<open>except Exception\<close>.
\<close>

datatype exn =
  RuntimeError string
  | ValueError string
  | AttributeError string
  | SendError string
  | CancelledError

fun is_Exception :: "exn \<Rightarrow> bool" where
  "is_Exception CancelledError = False"
| "is_Exception _ = True"





subsection \<open>Configuration\<close>


definition default_audio_path :: string where
  "default_audio_path = ''audio/096_WARRIOR_hotline_8k_mono.wav''"





subsection \<open>Messages and the messaging platform\<close>

text \<open>
  An inbound \<^verbatim>\<open>Message\<close> carries \<^verbatim>\<open>from_user\<close> (optional in the library's type; here the
  user's \<^verbatim>\<open>id\<close> when a sender is present) and the optional \<^verbatim>\<open>text\<close>.
\<close>

record message =
  from_user :: "int option"
  msg_text :: "string option"

text \<open>
  The texts the bot sends are constants of the source with Cyrillic letters; each is a
  constructor here. \<open>UsersText n\<close> is \<^verbatim>\<open>f"Users: {n}"\<close>, \<open>AudioErrorText e\<close> is the
  diagnostic text built from the caught exception \<open>e\<close>, \<open>RetryText\<close> the message that the
  voice could not be sent, \<open>AdminOnlyText\<close> the message that the command is for the
  administrator only, \<open>VoiceCaption\<close> the caption of the audio. The welcome text is sent
  with the HTML parse mode, the others without.
\<close>

datatype body =
  WELCOME_TEXT
  | HELP_TEXT
  | RetryText
  | AdminOnlyText
  | UsersText nat
  | AudioErrorText exn
  | VoiceCaption

datatype label = PRE_SAVE | SECRET

type_synonym keyboard = "(label \<times> string) list list"

definition main_kb :: "string \<Rightarrow> string \<Rightarrow> keyboard" where
  "main_kb pre_url chan_url = [[(PRE_SAVE, pre_url)], [(SECRET, chan_url)]]"

text \<open>
  The \<^verbatim>\<open>audio\<close> argument of \<^verbatim>\<open>answer_audio\<close> is either a file identifier that the platform
  issued earlier or a file on disk, which the library uploads.
\<close>

datatype input_audio = FileId string | FSInputFile string

text \<open>The message that \<^verbatim>\<open>answer_audio\<close> returns: \<^verbatim>\<open>msg.audio\<close> is optional.\<close>

record audio_obj =
  file_id :: string

record sent_message =
  audio :: "audio_obj option"

datatype action =
  Answer body
  | AnswerAudio input_audio body keyboard
  | SendMessage int body

text \<open>
  What the platform does with each call that a handler makes during one invocation:
  \<open>None\<close> (or \<open>Inr\<close>) when the call returns, the exception when it raises. Within one
  invocation no handler makes the same call twice, so a function of the call's arguments
  loses nothing.
\<close>

record platform =
  answer :: "body \<Rightarrow> exn option"
  answer_audio :: "input_audio \<Rightarrow> body \<Rightarrow> keyboard \<Rightarrow> exn + sent_message"
  send_message :: "int \<Rightarrow> body \<Rightarrow> exn option"

datatype outcome = Returned | Raised exn

text \<open>
  A handler yields the new state (the module variables keep what was assigned before an
  exception), how it ended, and the calls it made, in order.
\<close>

type_synonym result = "state \<times> outcome \<times> action list"

subsection \<open>Handlers\<close>

text \<open>
  \<^verbatim>\<open>if AUDIO_FILE_ID\<close> holds for a string that is present and not empty, and
  \<^verbatim>\<open>if cfg.admin_id\<close> for an integer that is present and not zero.
\<close>

definition truthy_str :: "string option \<Rightarrow> string option" where
  "truthy_str a = (case a of None \<Rightarrow> None | Some h \<Rightarrow> if h = [] then None else Some h)"

definition truthy_int :: "int option \<Rightarrow> int option" where
  "truthy_int a = (case a of None \<Rightarrow> None | Some n \<Rightarrow> if n = 0 then None else Some n)"

text \<open>
  The statements that send the voice are the same in \<^verbatim>\<open>on_start\<close> (lines 80 to 86) and in
  \<^verbatim>\<open>on_keyword\<close> (lines 112 to 117): with a cached identifier the audio is sent by that
  identifier; otherwise the file is sent from disk and \<^verbatim>\<open>msg.audio.file_id\<close> is stored.
  The second component is the exception that these statements raise, if any.
\<close>

definition send_voice :: "config \<Rightarrow> platform \<Rightarrow> keyboard \<Rightarrow> state \<Rightarrow> state \<times> exn option \<times> action list" where
  "send_voice cfg p kb s =
     (case truthy_str (AUDIO_FILE_ID s) of
        Some h \<Rightarrow>
          (case answer_audio p (FileId h) VoiceCaption kb of
             Inl e \<Rightarrow> (s, Some e, [AnswerAudio (FileId h) VoiceCaption kb])
           | Inr msg \<Rightarrow> (s, None, [AnswerAudio (FileId h) VoiceCaption kb]))
      | None \<Rightarrow>
          (let file = FSInputFile (audio_path cfg) in
           case answer_audio p file VoiceCaption kb of
             Inl e \<Rightarrow> (s, Some e, [AnswerAudio file VoiceCaption kb])
           | Inr msg \<Rightarrow>
               (case audio msg of
                  None \<Rightarrow> (s, Some (AttributeError ''file_id''), [AnswerAudio file VoiceCaption kb])
                | Some a \<Rightarrow> (s\<lparr>AUDIO_FILE_ID := Some (file_id a)\<rparr>, None,
                             [AnswerAudio file VoiceCaption kb]))))"

text \<open>
  The body of \<^verbatim>\<open>except Exception as e\<close> in \<^verbatim>\<open>on_start\<close> (lines 88 to 90), entered with the
  caught exception \<open>e\<close>, the state \<open>s\<close> and the calls \<open>tr\<close> made so far. Neither of its two
  calls is guarded, so an exception of either leaves the handler.
\<close>

definition on_start_except :: "config \<Rightarrow> platform \<Rightarrow> exn \<Rightarrow> state \<Rightarrow> action list \<Rightarrow> result" where
  "on_start_except cfg p e s tr =
     (case answer p RetryText of
        Some e' \<Rightarrow> (s, Raised e', tr @ [Answer RetryText])
      | None \<Rightarrow>
          (case truthy_int (admin_id cfg) of
             None \<Rightarrow> (s, Returned, tr @ [Answer RetryText])
           | Some a \<Rightarrow>
               (case send_message p a (AudioErrorText e) of
                  Some e' \<Rightarrow> (s, Raised e', tr @ [Answer RetryText, SendMessage a (AudioErrorText e)])
                | None \<Rightarrow> (s, Returned, tr @ [Answer RetryText, SendMessage a (AudioErrorText e)]))))"

definition on_start :: "config \<Rightarrow> platform \<Rightarrow> real \<Rightarrow> message \<Rightarrow> state \<Rightarrow> result" where
  "on_start cfg p now m s =
     (case from_user m of
        None \<Rightarrow> (s, Raised (AttributeError ''id''), [])
      | Some uid \<Rightarrow>
          (let s1 = s\<lparr>USERS := finsert uid (USERS s)\<rparr>;
               thr = throttled now uid (LAST_ACTION_AT s1);
               s2 = s1\<lparr>LAST_ACTION_AT := snd thr\<rparr>
           in if fst thr then (s2, Returned, [])
              else
                (case answer p WELCOME_TEXT of
                   Some e \<Rightarrow> (s2, Raised e, [Answer WELCOME_TEXT])
                 | None \<Rightarrow>
                     (let kb = main_kb (pre_save_url cfg) (channel_url cfg);
                          v = send_voice cfg p kb s2;
                          tr = Answer WELCOME_TEXT # snd (snd v)
                      in case fst (snd v) of
                           None \<Rightarrow> (fst v, Returned, tr)
                         | Some e \<Rightarrow>
                             if is_Exception e then on_start_except cfg p e (fst v) tr
                             else (fst v, Raised e, tr)))))"

text \<open>\<^verbatim>\<open>await message.answer(b)\<close> as the last statement of a handler.\<close>

definition reply :: "platform \<Rightarrow> body \<Rightarrow> state \<Rightarrow> result" where
  "reply p b s =
     (case answer p b of
        Some e \<Rightarrow> (s, Raised e, [Answer b])
      | None \<Rightarrow> (s, Returned, [Answer b]))"

definition on_help :: "platform \<Rightarrow> message \<Rightarrow> state \<Rightarrow> result" where
  "on_help p m s = reply p HELP_TEXT s"

text \<open>
  In \<^verbatim>\<open>on_stats\<close> the conjunction \<^verbatim>\<open>cfg.admin_id and ...\<close> reads \<^verbatim>\<open>message.from_user.id\<close>
  only when \<^verbatim>\<open>cfg.admin_id\<close> is present and not zero.
\<close>

definition on_stats :: "config \<Rightarrow> platform \<Rightarrow> message \<Rightarrow> state \<Rightarrow> result" where
  "on_stats cfg p m s =
     (case truthy_int (admin_id cfg) of
        None \<Rightarrow> reply p AdminOnlyText s
      | Some a \<Rightarrow>
          (case from_user m of
             None \<Rightarrow> (s, Raised (AttributeError ''id''), [])
           | Some uid \<Rightarrow>
               if uid = a then reply p (UsersText (fcard (USERS s))) s
               else reply p AdminOnlyText s))"

text \<open>\<^verbatim>\<open>(message.text or "").strip().lower()\<close>\<close>

definition keyword :: "message \<Rightarrow> string" where
  "keyword m = lower (strip (case msg_text m of None \<Rightarrow> [] | Some t \<Rightarrow> t))"

definition on_keyword :: "config \<Rightarrow> platform \<Rightarrow> real \<Rightarrow> message \<Rightarrow> state \<Rightarrow> result" where
  "on_keyword cfg p now m s =
     (if keyword m \<noteq> ''096'' then (s, Returned, [])
      else
        (case from_user m of
           None \<Rightarrow> (s, Raised (AttributeError ''id''), [])
         | Some uid \<Rightarrow>
             (let thr = throttled now uid (LAST_ACTION_AT s);
                  s2 = s\<lparr>LAST_ACTION_AT := snd thr\<rparr>
              in if fst thr then (s2, Returned, [])
                 else
                   (let kb = main_kb (pre_save_url cfg) (channel_url cfg);
                        v = send_voice cfg p kb s2
                    in case fst (snd v) of
                         None \<Rightarrow> (fst v, Returned, snd (snd v))
                       | Some e \<Rightarrow> (fst v, Raised e, snd (snd v))))))"

subsection \<open>Sequences of handler invocations\<close>

text \<open>
  The dispatcher calls one handler per inbound message. An invocation names the handler
  and gives what that run meets: the platform's answers, the clock value, the message.
  \<open>run\<close> performs the invocations one after the other, without interleaving, whether a
  handler returns or raises, and collects the calls made.
\<close>

datatype handler = OnStart | OnHelp | OnStats | OnKeyword

type_synonym invocation = "handler \<times> platform \<times> real \<times> message"

fun invoke :: "config \<Rightarrow> invocation \<Rightarrow> state \<Rightarrow> result" where
  "invoke cfg (OnStart, p, now, m) s = on_start cfg p now m s"
| "invoke cfg (OnHelp, p, now, m) s = on_help p m s"
| "invoke cfg (OnStats, p, now, m) s = on_stats cfg p m s"
| "invoke cfg (OnKeyword, p, now, m) s = on_keyword cfg p now m s"

fun run :: "config \<Rightarrow> invocation list \<Rightarrow> state \<Rightarrow> state \<times> action list" where
  "run cfg [] s = (s, [])"
| "run cfg (i # is) s =
     (let r = invoke cfg i s; r' = run cfg is (fst r)
      in (fst r', snd (snd r) @ snd r'))"

subsection \<open>Observations on states and calls\<close>

text \<open>
  What the next voice send will pass as its audio argument; whether a call is an upload of
  the file from disk; whether a call sends audio at all.
\<close>

definition voice_source :: "config \<Rightarrow> state \<Rightarrow> input_audio" where
  "voice_source cfg s =
     (case truthy_str (AUDIO_FILE_ID s) of Some h \<Rightarrow> FileId h | None \<Rightarrow> FSInputFile (audio_path cfg))"

fun is_upload :: "action \<Rightarrow> bool" where
  "is_upload (AnswerAudio (FSInputFile f) c k) = True"
| "is_upload _ = False"

fun is_audio :: "action \<Rightarrow> bool" where
  "is_audio (AnswerAudio src c k) = True"
| "is_audio _ = False"

text \<open>
  \<open>audio_step\<close> sums up what one handler invocation does about the voice: from a state
  \<open>s2\<close> with the identifier of \<open>s\<close>, it either sends no audio and ends in \<open>s2\<close>, or it runs
  the voice statements once on \<open>s2\<close>, and these make all its audio calls.
\<close>

definition audio_step :: "config \<Rightarrow> platform \<Rightarrow> state \<Rightarrow> result \<Rightarrow> bool" where
  "audio_step cfg p s r =
     (\<exists>s2. AUDIO_FILE_ID s2 = AUDIO_FILE_ID s \<and>
        ((fst r = s2 \<and> filter is_audio (snd (snd r)) = []) \<or>
         (fst r = fst (send_voice cfg p (main_kb (pre_save_url cfg) (channel_url cfg)) s2) \<and>
          filter is_audio (snd (snd r)) =
            snd (snd (send_voice cfg p (main_kb (pre_save_url cfg) (channel_url cfg)) s2)))))"

subsection \<open>Concrete inputs\<close>

text \<open>
  A configuration with administrator 1, a platform on which every call returns (each audio
  send with the file identifier \<open>F1\<close>), and a message with a sender and a text.
\<close>

definition cfg0 :: config where
  "cfg0 = \<lparr>token = ''t'', admin_id = Some 1, pre_save_url = ''p'', channel_url = ''c'',
            audio_path = default_audio_path\<rparr>"

definition kb0 :: keyboard where
  "kb0 = main_kb ''p'' ''c''"

definition p_ok :: platform where
  "p_ok = \<lparr>answer = (\<lambda>b. None),
           answer_audio = (\<lambda>src c k. Inr \<lparr>audio = Some \<lparr>file_id = ''F1''\<rparr>\<rparr>),
           send_message = (\<lambda>i b. None)\<rparr>"

definition msg_from :: "int \<Rightarrow> string \<Rightarrow> message" where
  "msg_from u t = \<lparr>from_user = Some u, msg_text = Some t\<rparr>"

text \<open>
  Platforms on which every audio send raises; on the second, the message to the
  administrator raises too.
\<close>

definition p_audio_fail :: platform where
  "p_audio_fail = \<lparr>answer = (\<lambda>b. None),
           answer_audio = (\<lambda>src c k. Inl (SendError ''timeout'')),
           send_message = (\<lambda>i b. None)\<rparr>"

definition p_admin_fail :: platform where
  "p_admin_fail = \<lparr>answer = (\<lambda>b. None),
           answer_audio = (\<lambda>src c k. Inl (SendError ''timeout'')),
           send_message = (\<lambda>i b. Some (SendError ''chat not found''))\<rparr>"






text \<open>
  A configuration whose administrator is 0 (the value that \<^verbatim>\<open>load_config\<close> returns for
  \<^verbatim>\<open>ADMIN_ID=0\<close>), and a state with three known users.
\<close>

definition cfg_admin0 :: config where
  "cfg_admin0 = cfg0\<lparr>admin_id := Some 0\<rparr>"

definition state3 :: state where
  "state3 = initial_state\<lparr>USERS := {|0, 5, 9|}\<rparr>"

text \<open>The equations that evaluate the handlers on concrete inputs.\<close>

lemmas concrete_defs = cfg0_def kb0_def p_ok_def p_audio_fail_def p_admin_fail_def msg_from_def
  initial_state_def default_audio_path_def main_kb_def

lemmas handler_defs = on_start_def on_keyword_def on_stats_def on_help_def reply_def
  on_start_except_def send_voice_def throttled_def THROTTLE_SECONDS_def truthy_str_def
  truthy_int_def Let_def

lemmas keyword_defs = keyword_def lower_def lower_char_def strip_def isspace_def

section \<open>The throttle window\<close>

lemma throttled_rejected_unchanged:
  "fst (throttled t v m) \<Longrightarrow> snd (throttled t v m) = m"
  by (simp add: throttled_def Let_def split: if_splits)

lemma throttled_admitted_records:
  "\<not> fst (throttled t v m) \<Longrightarrow> snd (throttled t v m) v = Some t"
  by (simp add: throttled_def Let_def split: if_splits)

lemma throttled_other_user:
  "w \<noteq> v \<Longrightarrow> snd (throttled t v m) w = m w"
  by (simp add: throttled_def Let_def)

lemma throttle_calls_other_users:
  "\<forall>c \<in> set cs. snd c \<noteq> u \<Longrightarrow> throttle_calls cs m u = m u"
proof (induction cs arbitrary: m)
  case Nil
  show ?case by simp
next
  case (Cons c cs)
  obtain t v where c: "c = (t, v)" by (cases c)
  from Cons.prems c have "v \<noteq> u" by auto
  then have "snd (throttled t v m) u = m u"
    using throttled_other_user [of u v t m] by simp
  moreover from Cons.prems have "\<forall>c \<in> set cs. snd c \<noteq> u" by simp
  ultimately show ?case
    using Cons.IH [of "snd (throttled t v m)"] c by simp
qed

lemma throttled_after_admission:
  assumes "m u = Some t1"
  shows "fst (throttled t2 u m) = (t2 - t1 < 5)"
  using assms by (simp add: throttled_def THROTTLE_SECONDS_def)

text \<open>
  Claim C1. A user \<open>u\<close> is admitted at time \<open>t1\<close>; then any number of checks for other
  users run; then \<open>u\<close> is checked again at a later time \<open>t2\<close>. The second check rejects
  when \<open>t2 - t1 < 5\<close> and admits when \<open>t2 - t1 \<ge> 5\<close>. Moreover, for every check
  whatsoever: a rejecting check returns the dictionary it was given, an admitting check
  stores its clock value for its user, and the entry of every other user is left as it was.
\<close>

theorem throttled_window:
  assumes "throttled t1 u m = (False, m1)"
    and "t1 < t2"
    and "\<forall>c \<in> set cs. snd c \<noteq> u"
  shows "(t2 - t1 < 5 \<longrightarrow> fst (throttled t2 u (throttle_calls cs m1)))
       \<and> (5 \<le> t2 - t1 \<longrightarrow> \<not> fst (throttled t2 u (throttle_calls cs m1)))
       \<and> (\<forall>t v m'. fst (throttled t v m') \<longrightarrow> snd (throttled t v m') = m')
       \<and> (\<forall>t v m'. \<not> fst (throttled t v m') \<longrightarrow> snd (throttled t v m') v = Some t)
       \<and> (\<forall>t v w m'. w \<noteq> v \<longrightarrow> snd (throttled t v m') w = m' w)"
proof -
  from assms(1) have "\<not> fst (throttled t1 u m)" and "snd (throttled t1 u m) = m1"
    by simp_all
  then have "m1 u = Some t1"
    using throttled_admitted_records [of t1 u m] by simp
  with assms(3) have "throttle_calls cs m1 u = Some t1"
    by (simp add: throttle_calls_other_users)
  then have "fst (throttled t2 u (throttle_calls cs m1)) = (t2 - t1 < 5)"
    by (rule throttled_after_admission)
  then show ?thesis
    using throttled_rejected_unchanged throttled_admitted_records throttled_other_user
    by auto
qed

theorem throttled_window_witness:
  "fst (throttled 103 7 (throttle_calls [(101, 8)] [7 \<mapsto> 100]))
   \<and> \<not> fst (throttled 105 7 (throttle_calls [(101, 8)] [7 \<mapsto> 100]))"
proof -
  have a: "throttled 100 7 Map.empty = (False, [7 \<mapsto> 100])"
    by (simp add: throttled_def THROTTLE_SECONDS_def)
  have c: "\<forall>c \<in> set [(101::real, 8::int)]. snd c \<noteq> 7"
    by simp
  have "(100::real) < 103" and "(100::real) < 105"
    by simp_all
  then show ?thesis
    using throttled_window [OF a _ c, of 103] throttled_window [OF a _ c, of 105]
    by simp
qed

section \<open>The voice statements and the cached identifier\<close>

lemma send_voice_calls:
  "snd (snd (send_voice cfg p kb s)) = [AnswerAudio (voice_source cfg s) VoiceCaption kb]"
  by (simp add: send_voice_def voice_source_def Let_def split: option.splits sum.splits)

lemma send_voice_USERS: "USERS (fst (send_voice cfg p kb s)) = USERS s"
  by (simp add: send_voice_def Let_def split: option.splits sum.splits)

lemma send_voice_LAST: "LAST_ACTION_AT (fst (send_voice cfg p kb s)) = LAST_ACTION_AT s"
  by (simp add: send_voice_def Let_def split: option.splits sum.splits)

lemma send_voice_cached:
  "truthy_str (AUDIO_FILE_ID s) = Some h \<Longrightarrow> fst (send_voice cfg p kb s) = s"
  by (simp add: send_voice_def Let_def split: option.splits sum.splits)

lemma send_voice_failure:
  "answer_audio p (voice_source cfg s) VoiceCaption kb = Inl e \<Longrightarrow>
     send_voice cfg p kb s = (s, Some e, [AnswerAudio (voice_source cfg s) VoiceCaption kb])"
  by (simp add: send_voice_def voice_source_def Let_def split: option.splits sum.splits)

lemma send_voice_upload_ok:
  "truthy_str (AUDIO_FILE_ID s) = None \<Longrightarrow>
   answer_audio p (FSInputFile (audio_path cfg)) VoiceCaption kb = Inr msg \<Longrightarrow>
   audio msg = Some a \<Longrightarrow>
     send_voice cfg p kb s =
       (s\<lparr>AUDIO_FILE_ID := Some (file_id a)\<rparr>, None, [AnswerAudio (FSInputFile (audio_path cfg)) VoiceCaption kb])"
  by (simp add: send_voice_def Let_def)

lemma on_start_except_state: "fst (on_start_except cfg p e s tr) = s"
  by (simp add: on_start_except_def split: option.splits)

lemma voice_source_upd [simp]:
  "voice_source cfg (s\<lparr>USERS := us\<rparr>) = voice_source cfg s"
  "voice_source cfg (s\<lparr>LAST_ACTION_AT := la\<rparr>) = voice_source cfg s"
  by (simp_all add: voice_source_def)


lemma on_start_except_audio:
  "filter is_audio (snd (snd (on_start_except cfg p e s tr))) = filter is_audio tr"
  by (simp add: on_start_except_def split: option.splits)

lemma is_audio_send_voice:
  "filter is_audio (snd (snd (send_voice cfg p kb s))) = snd (snd (send_voice cfg p kb s))"
  by (simp add: send_voice_calls)

lemma on_start_audio_step: "audio_step cfg p s (on_start cfg p now m s)"
proof (cases "from_user m")
  case None
  then show ?thesis
    by (auto simp: audio_step_def on_start_def)
next
  case (Some u)
  let ?s2 = "s\<lparr>USERS := finsert u (USERS s), LAST_ACTION_AT := snd (throttled now u (LAST_ACTION_AT s))\<rparr>"
  have id: "AUDIO_FILE_ID ?s2 = AUDIO_FILE_ID s" by simp
  show ?thesis
  proof (cases "fst (throttled now u (LAST_ACTION_AT s)) \<or> answer p WELCOME_TEXT \<noteq> None")
    case True
    then have "fst (on_start cfg p now m s) = ?s2 \<and> filter is_audio (snd (snd (on_start cfg p now m s))) = []"
      using Some by (auto simp: on_start_def Let_def)
    with id show ?thesis unfolding audio_step_def by blast
  next
    case False
    then have "fst (on_start cfg p now m s) = fst (send_voice cfg p (main_kb (pre_save_url cfg) (channel_url cfg)) ?s2)
        \<and> filter is_audio (snd (snd (on_start cfg p now m s))) =
            snd (snd (send_voice cfg p (main_kb (pre_save_url cfg) (channel_url cfg)) ?s2))"
      using Some
      by (simp add: on_start_def Let_def on_start_except_state on_start_except_audio
            is_audio_send_voice split: option.splits)
    with id show ?thesis unfolding audio_step_def by blast
  qed
qed

lemma on_keyword_audio_step: "audio_step cfg p s (on_keyword cfg p now m s)"
proof (cases "keyword m \<noteq> ''096'' \<or> from_user m = None")
  case True
  then show ?thesis
    by (auto simp: audio_step_def on_keyword_def)
next
  case False
  then obtain u where u: "from_user m = Some u" and k: "keyword m = ''096''" by auto
  let ?s2 = "s\<lparr>LAST_ACTION_AT := snd (throttled now u (LAST_ACTION_AT s))\<rparr>"
  have id: "AUDIO_FILE_ID ?s2 = AUDIO_FILE_ID s" by simp
  show ?thesis
  proof (cases "fst (throttled now u (LAST_ACTION_AT s))")
    case True
    then have "fst (on_keyword cfg p now m s) = ?s2 \<and> filter is_audio (snd (snd (on_keyword cfg p now m s))) = []"
      using u k by (simp add: on_keyword_def Let_def)
    with id show ?thesis unfolding audio_step_def by blast
  next
    case False
    then have "fst (on_keyword cfg p now m s) = fst (send_voice cfg p (main_kb (pre_save_url cfg) (channel_url cfg)) ?s2)
        \<and> filter is_audio (snd (snd (on_keyword cfg p now m s))) =
            snd (snd (send_voice cfg p (main_kb (pre_save_url cfg) (channel_url cfg)) ?s2))"
      using u k
      by (simp add: on_keyword_def Let_def is_audio_send_voice split: option.splits)
    with id show ?thesis unfolding audio_step_def by blast
  qed
qed

lemma reply_audio_step: "audio_step cfg p s (reply p b s)"
  by (auto simp: audio_step_def reply_def split: option.splits)

lemma on_stats_audio_step: "audio_step cfg p s (on_stats cfg p m s)"
  using reply_audio_step [of cfg p s]
  by (auto simp: on_stats_def audio_step_def split: option.splits)

lemma invoke_audio_step: "audio_step cfg (fst (snd i)) s (invoke cfg i s)"
proof -
  obtain h p now m where i: "i = (h, p, now, m)" by (cases i) auto
  show ?thesis
    using on_start_audio_step on_keyword_audio_step on_stats_audio_step reply_audio_step
    by (cases h) (simp_all add: i on_help_def)
qed

lemma upload_is_audio: "is_upload a \<Longrightarrow> is_audio a"
  by (cases a rule: is_upload.cases) simp_all

lemma voice_source_cong: "AUDIO_FILE_ID s2 = AUDIO_FILE_ID s \<Longrightarrow> voice_source cfg s2 = voice_source cfg s"
  by (simp add: voice_source_def)

lemma audio_step_calls:
  assumes "audio_step cfg p s r" and "a \<in> set (snd (snd r))" and "is_audio a"
  shows "\<exists>s2. AUDIO_FILE_ID s2 = AUDIO_FILE_ID s
           \<and> fst r = fst (send_voice cfg p (main_kb (pre_save_url cfg) (channel_url cfg)) s2)
           \<and> a = AnswerAudio (voice_source cfg s) VoiceCaption (main_kb (pre_save_url cfg) (channel_url cfg))"
proof -
  let ?kb = "main_kb (pre_save_url cfg) (channel_url cfg)"
  from assms(1) obtain s2 where s2: "AUDIO_FILE_ID s2 = AUDIO_FILE_ID s"
    and r: "(fst r = s2 \<and> filter is_audio (snd (snd r)) = []) \<or>
         (fst r = fst (send_voice cfg p ?kb s2) \<and>
          filter is_audio (snd (snd r)) = snd (snd (send_voice cfg p ?kb s2)))"
    unfolding audio_step_def by blast
  from assms(2,3) have ne: "filter is_audio (snd (snd r)) \<noteq> []"
    by (auto simp: filter_empty_conv)
  with r have st: "fst r = fst (send_voice cfg p ?kb s2)"
    and tr: "filter is_audio (snd (snd r)) = [AnswerAudio (voice_source cfg s2) VoiceCaption ?kb]"
    by (auto simp: send_voice_calls)
  from assms(2,3) have "a \<in> set (filter is_audio (snd (snd r)))" by simp
  then have "a \<in> set [AnswerAudio (voice_source cfg s2) VoiceCaption ?kb]"
    unfolding tr .
  then have "a = AnswerAudio (voice_source cfg s) VoiceCaption ?kb"
    using voice_source_cong [OF s2] by simp
  with s2 st show ?thesis by blast
qed

lemma audio_step_unset:
  assumes "audio_step cfg p s r" and "a \<in> set (snd (snd r))" and "is_upload a"
  shows "truthy_str (AUDIO_FILE_ID s) = None"
proof (rule ccontr)
  assume "truthy_str (AUDIO_FILE_ID s) \<noteq> None"
  then obtain h where h: "truthy_str (AUDIO_FILE_ID s) = Some h" by auto
  from audio_step_calls [OF assms(1,2) upload_is_audio [OF assms(3)]] h
  have "a = AnswerAudio (FileId h) VoiceCaption (main_kb (pre_save_url cfg) (channel_url cfg))"
    by (auto simp: voice_source_def)
  with assms(3) show False by simp
qed

lemma audio_step_state:
  assumes "audio_step cfg p s r"
  shows "\<exists>s2. AUDIO_FILE_ID s2 = AUDIO_FILE_ID s \<and>
           (fst r = s2 \<or> fst r = fst (send_voice cfg p (main_kb (pre_save_url cfg) (channel_url cfg)) s2))"
  using assms unfolding audio_step_def by blast

lemma audio_step_cached:
  assumes "audio_step cfg p s r" and "truthy_str (AUDIO_FILE_ID s) = Some h"
  shows "AUDIO_FILE_ID (fst r) = AUDIO_FILE_ID s"
    and "\<forall>a \<in> set (snd (snd r)). is_audio a \<longrightarrow>
           a = AnswerAudio (FileId h) VoiceCaption (main_kb (pre_save_url cfg) (channel_url cfg))"
proof -
  from audio_step_state [OF assms(1)] obtain s2 where s2: "AUDIO_FILE_ID s2 = AUDIO_FILE_ID s"
    and r: "fst r = s2 \<or> fst r = fst (send_voice cfg p (main_kb (pre_save_url cfg) (channel_url cfg)) s2)"
    by blast
  from s2 assms(2) have c: "truthy_str (AUDIO_FILE_ID s2) = Some h" by simp
  from r s2 c show "AUDIO_FILE_ID (fst r) = AUDIO_FILE_ID s"
    by (auto simp: send_voice_cached)
  show "\<forall>a \<in> set (snd (snd r)). is_audio a \<longrightarrow>
           a = AnswerAudio (FileId h) VoiceCaption (main_kb (pre_save_url cfg) (channel_url cfg))"
  proof (intro ballI impI)
    fix a assume "a \<in> set (snd (snd r))" and "is_audio a"
    from audio_step_calls [OF assms(1) this] assms(2)
    show "a = AnswerAudio (FileId h) VoiceCaption (main_kb (pre_save_url cfg) (channel_url cfg))"
      by (auto simp: voice_source_def)
  qed
qed

lemma audio_step_upload_ok:
  assumes "audio_step cfg p s r"
    and "AnswerAudio (FSInputFile f) c k \<in> set (snd (snd r))"
    and "answer_audio p (FSInputFile f) c k = Inr msg"
    and "audio msg = Some a"
  shows "AUDIO_FILE_ID (fst r) = Some (file_id a)"
proof -
  let ?kb = "main_kb (pre_save_url cfg) (channel_url cfg)"
  have up: "is_upload (AnswerAudio (FSInputFile f) c k)" by simp
  from audio_step_unset [OF assms(1,2) up] have u: "truthy_str (AUDIO_FILE_ID s) = None" .
  from audio_step_calls [OF assms(1,2)] obtain s2 where s2: "AUDIO_FILE_ID s2 = AUDIO_FILE_ID s"
    and st: "fst r = fst (send_voice cfg p ?kb s2)"
    and a: "AnswerAudio (FSInputFile f) c k = AnswerAudio (voice_source cfg s) VoiceCaption ?kb"
    by auto
  from a u have eq: "f = audio_path cfg" "c = VoiceCaption" "k = ?kb"
    by (simp_all add: voice_source_def)
  from u s2 have "truthy_str (AUDIO_FILE_ID s2) = None" by simp
  from send_voice_upload_ok [OF this, of p cfg ?kb msg a] assms(3,4) eq st show ?thesis
    by simp
qed

lemma run_cached:
  "truthy_str (AUDIO_FILE_ID s) = Some h \<Longrightarrow>
     AUDIO_FILE_ID (fst (run cfg js s)) = AUDIO_FILE_ID s
     \<and> (\<forall>a \<in> set (snd (run cfg js s)). is_audio a \<longrightarrow>
           a = AnswerAudio (FileId h) VoiceCaption (main_kb (pre_save_url cfg) (channel_url cfg)))"
proof (induction js arbitrary: s)
  case Nil
  show ?case by simp
next
  case (Cons i js)
  note st = audio_step_cached [OF invoke_audio_step [of cfg i s] Cons.prems]
  from st(1) Cons.prems have "truthy_str (AUDIO_FILE_ID (fst (invoke cfg i s))) = Some h" by simp
  from Cons.IH [OF this] st show ?case
    by (auto simp: Let_def)
qed

text \<open>
  Claim C2. The cached identifier counts as set when \<^verbatim>\<open>if AUDIO_FILE_ID\<close> holds, that is
  when it is a string that is not empty (\<open>truthy_str\<close>). For every handler invocation: a
  call that uploads the file from disk is made only from a state whose identifier is unset;
  and when the upload returns a message with an audio whose file identifier is not empty,
  the identifier is set to it afterwards. For every sequence of invocations that starts in
  a state whose identifier is set to \<open>h\<close>: the identifier is the same at the end, no call of
  the sequence is an upload, and every audio call of the sequence sends by \<open>h\<close>.
\<close>

theorem audio_file_id_upload_once:
  "(\<forall>i (s::state) a. a \<in> set (snd (snd (invoke cfg i s))) \<and> is_upload a \<longrightarrow>
        truthy_str (AUDIO_FILE_ID s) = None)
   \<and> (\<forall>h p now m (s::state) f c k msg a.
        AnswerAudio (FSInputFile f) c k \<in> set (snd (snd (invoke cfg (h, p, now, m) s)))
        \<and> answer_audio p (FSInputFile f) c k = Inr msg \<and> audio msg = Some a \<and> file_id a \<noteq> [] \<longrightarrow>
        truthy_str (AUDIO_FILE_ID (fst (invoke cfg (h, p, now, m) s))) = Some (file_id a))
   \<and> (\<forall>js (s::state) h. truthy_str (AUDIO_FILE_ID s) = Some h \<longrightarrow>
        AUDIO_FILE_ID (fst (run cfg js s)) = AUDIO_FILE_ID s
        \<and> (\<forall>a \<in> set (snd (run cfg js s)). \<not> is_upload a)
        \<and> (\<forall>src c k. AnswerAudio src c k \<in> set (snd (run cfg js s)) \<longrightarrow> src = FileId h))"
proof (intro conjI allI impI ballI)
  fix i and s :: state and a
  assume "a \<in> set (snd (snd (invoke cfg i s))) \<and> is_upload a"
  then show "truthy_str (AUDIO_FILE_ID s) = None"
    using audio_step_unset [OF invoke_audio_step [of cfg i s]] by blast
next
  fix h p now m and s :: state and f c k msg a
  assume a: "AnswerAudio (FSInputFile f) c k \<in> set (snd (snd (invoke cfg (h, p, now, m) s)))
        \<and> answer_audio p (FSInputFile f) c k = Inr msg \<and> audio msg = Some a \<and> file_id a \<noteq> []"
  have "audio_step cfg p s (invoke cfg (h, p, now, m) s)"
    using invoke_audio_step [of cfg "(h, p, now, m)" s] by simp
  from audio_step_upload_ok [OF this] a
  have "AUDIO_FILE_ID (fst (invoke cfg (h, p, now, m) s)) = Some (file_id a)" by blast
  with a show "truthy_str (AUDIO_FILE_ID (fst (invoke cfg (h, p, now, m) s))) = Some (file_id a)"
    by (simp add: truthy_str_def)
next
  fix js and s :: state and h
  assume "truthy_str (AUDIO_FILE_ID s) = Some h"
  then show "AUDIO_FILE_ID (fst (run cfg js s)) = AUDIO_FILE_ID s"
    by (simp add: run_cached)
next
  fix js and s :: state and h a
  assume h: "truthy_str (AUDIO_FILE_ID s) = Some h" and a: "a \<in> set (snd (run cfg js s))"
  show "\<not> is_upload a"
  proof
    assume u: "is_upload a"
    with run_cached [OF h, of cfg js] a upload_is_audio [OF u]
    have "a = AnswerAudio (FileId h) VoiceCaption (main_kb (pre_save_url cfg) (channel_url cfg))"
      by blast
    with u show False by simp
  qed
next
  fix js and s :: state and h src c k
  assume h: "truthy_str (AUDIO_FILE_ID s) = Some h"
    and a: "AnswerAudio src c k \<in> set (snd (run cfg js s))"
  have "is_audio (AnswerAudio src c k)" by simp
  with run_cached [OF h, of cfg js] a
  have "AnswerAudio src c k = AnswerAudio (FileId h) VoiceCaption (main_kb (pre_save_url cfg) (channel_url cfg))"
    by blast
  then show "src = FileId h" by simp
qed

theorem audio_file_id_upload_once_witness:
  "truthy_str (AUDIO_FILE_ID (fst (invoke cfg0 (OnStart, p_ok, 100, msg_from 7 ''/start'') initial_state)))
     = Some ''F1''
   \<and> filter is_upload (snd (run cfg0 [(OnStart, p_ok, 102, msg_from 7 ''/start''), (OnKeyword, p_ok, 106, msg_from 7 ''096'')]
          (fst (invoke cfg0 (OnStart, p_ok, 100, msg_from 7 ''/start'') initial_state)))) = []"
proof -
  let ?s1 = "fst (invoke cfg0 (OnStart, p_ok, 100, msg_from 7 ''/start'') initial_state)"
  let ?js = "[(OnStart, p_ok, 102, msg_from 7 ''/start''), (OnKeyword, p_ok, 106, msg_from 7 ''096'')]"
  have tr: "AnswerAudio (FSInputFile default_audio_path) VoiceCaption kb0
              \<in> set (snd (snd (invoke cfg0 (OnStart, p_ok, 100, msg_from 7 ''/start'') initial_state)))"
    by (simp add: concrete_defs handler_defs)
  have rep: "answer_audio p_ok (FSInputFile default_audio_path) VoiceCaption kb0
               = Inr \<lparr>audio = Some \<lparr>file_id = ''F1''\<rparr>\<rparr>"
    by (simp add: p_ok_def)
  have au: "audio \<lparr>audio = Some \<lparr>file_id = ''F1''\<rparr>\<rparr> = Some \<lparr>file_id = ''F1''\<rparr>"
    and ne: "file_id \<lparr>file_id = ''F1''\<rparr> \<noteq> []"
    by simp_all
  note inst = audio_file_id_upload_once [of cfg0]
  from inst have second: "\<And>h p now m s f c k msg a.
        AnswerAudio (FSInputFile f) c k \<in> set (snd (snd (invoke cfg0 (h, p, now, m) s)))
        \<and> answer_audio p (FSInputFile f) c k = Inr msg \<and> audio msg = Some a \<and> file_id a \<noteq> [] \<Longrightarrow>
        truthy_str (AUDIO_FILE_ID (fst (invoke cfg0 (h, p, now, m) s))) = Some (file_id a)"
    by blast
  from second [of default_audio_path VoiceCaption kb0 OnStart p_ok 100 "msg_from 7 ''/start''" initial_state
      "\<lparr>audio = Some \<lparr>file_id = ''F1''\<rparr>\<rparr>" "\<lparr>file_id = ''F1''\<rparr>"] tr rep au ne
  have 1: "truthy_str (AUDIO_FILE_ID ?s1) = Some ''F1''"
    by simp
  from inst have third: "\<And>js s h. truthy_str (AUDIO_FILE_ID s) = Some h \<Longrightarrow>
        (\<forall>a \<in> set (snd (run cfg0 js s)). \<not> is_upload a)"
    by blast
  from third [OF 1, of ?js] 1 show ?thesis by (simp only: filter_empty_conv)
qed

section \<open>What the handlers do to the state\<close>

lemma on_start_reaches:
  assumes "from_user m = Some u" and "\<not> fst (throttled now u (LAST_ACTION_AT s))"
    and "answer p WELCOME_TEXT = None"
  shows "fst (on_start cfg p now m s) =
           fst (send_voice cfg p (main_kb (pre_save_url cfg) (channel_url cfg))
                  (s\<lparr>USERS := finsert u (USERS s), LAST_ACTION_AT := (LAST_ACTION_AT s)(u \<mapsto> now)\<rparr>))"
    and "filter is_audio (snd (snd (on_start cfg p now m s))) =
           [AnswerAudio (voice_source cfg s) VoiceCaption (main_kb (pre_save_url cfg) (channel_url cfg))]"
proof -
  from assms(2) have t: "snd (throttled now u (LAST_ACTION_AT s)) = (LAST_ACTION_AT s)(u \<mapsto> now)"
    by (simp add: throttled_def Let_def split: if_splits)
  from assms t show "fst (on_start cfg p now m s) =
           fst (send_voice cfg p (main_kb (pre_save_url cfg) (channel_url cfg))
                  (s\<lparr>USERS := finsert u (USERS s), LAST_ACTION_AT := (LAST_ACTION_AT s)(u \<mapsto> now)\<rparr>))"
    by (simp add: on_start_def Let_def on_start_except_state split: option.splits)
  from assms show "filter is_audio (snd (snd (on_start cfg p now m s))) =
           [AnswerAudio (voice_source cfg s) VoiceCaption (main_kb (pre_save_url cfg) (channel_url cfg))]"
    by (simp add: on_start_def Let_def on_start_except_audio send_voice_calls split: option.splits)
qed

lemma on_keyword_reaches:
  assumes "keyword m = ''096''" and "from_user m = Some u"
    and "\<not> fst (throttled now u (LAST_ACTION_AT s))"
  shows "fst (on_keyword cfg p now m s) =
           fst (send_voice cfg p (main_kb (pre_save_url cfg) (channel_url cfg))
                  (s\<lparr>LAST_ACTION_AT := (LAST_ACTION_AT s)(u \<mapsto> now)\<rparr>))"
    and "snd (snd (on_keyword cfg p now m s)) =
           [AnswerAudio (voice_source cfg s) VoiceCaption (main_kb (pre_save_url cfg) (channel_url cfg))]"
proof -
  from assms(3) have t: "snd (throttled now u (LAST_ACTION_AT s)) = (LAST_ACTION_AT s)(u \<mapsto> now)"
    by (simp add: throttled_def Let_def split: if_splits)
  from assms t show "fst (on_keyword cfg p now m s) =
           fst (send_voice cfg p (main_kb (pre_save_url cfg) (channel_url cfg))
                  (s\<lparr>LAST_ACTION_AT := (LAST_ACTION_AT s)(u \<mapsto> now)\<rparr>))"
    by (simp add: on_keyword_def Let_def split: option.splits)
  from assms show "snd (snd (on_keyword cfg p now m s)) =
           [AnswerAudio (voice_source cfg s) VoiceCaption (main_kb (pre_save_url cfg) (channel_url cfg))]"
    by (simp add: on_keyword_def Let_def send_voice_calls split: option.splits)
qed

lemma send_voice_upload_fails:
  assumes "truthy_str (AUDIO_FILE_ID s) = None"
    and "answer_audio p (FSInputFile (audio_path cfg)) VoiceCaption kb = Inl e
         \<or> (\<exists>msg. answer_audio p (FSInputFile (audio_path cfg)) VoiceCaption kb = Inr msg \<and> audio msg = None)"
  shows "fst (send_voice cfg p kb s) = s" and "fst (snd (send_voice cfg p kb s)) \<noteq> None"
  using assms by (auto simp: send_voice_def Let_def)

lemma on_start_LAST:
  "from_user m = Some u \<Longrightarrow>
     LAST_ACTION_AT (fst (on_start cfg p now m s)) = snd (throttled now u (LAST_ACTION_AT s))"
  by (simp add: on_start_def Let_def on_start_except_state send_voice_LAST split: option.splits)

lemma on_keyword_LAST:
  "keyword m = ''096'' \<Longrightarrow> from_user m = Some u \<Longrightarrow>
     LAST_ACTION_AT (fst (on_keyword cfg p now m s)) = snd (throttled now u (LAST_ACTION_AT s))"
  by (simp add: on_keyword_def Let_def send_voice_LAST split: option.splits)

lemma on_start_USERS:
  "USERS (fst (on_start cfg p now m s)) =
     (case from_user m of None \<Rightarrow> USERS s | Some u \<Rightarrow> finsert u (USERS s))"
  by (simp add: on_start_def Let_def on_start_except_state send_voice_USERS split: option.splits)

lemma on_keyword_USERS: "USERS (fst (on_keyword cfg p now m s)) = USERS s"
  by (simp add: on_keyword_def Let_def send_voice_USERS split: option.splits)

lemma reply_state: "fst (reply p b s) = s"
  by (simp add: reply_def split: option.splits)

lemma on_stats_state: "fst (on_stats cfg p m s) = s"
  by (simp add: on_stats_def reply_state split: option.splits)

lemma on_help_state: "fst (on_help p m s) = s"
  by (simp add: on_help_def reply_state)

section \<open>A failed upload leaves the identifier unset\<close>

text \<open>
  Claim C4. A start event is admitted and its welcome text is sent; the identifier is unset,
  so the handler uploads the file from disk; the upload raises, or returns a message without
  an audio, so that reading its file identifier raises. Then the identifier is unset when
  the handler ends, and the next start event that is admitted and whose welcome text is
  sent, like the next keyword event that is admitted, uploads the file from disk again.
\<close>

theorem failed_upload_is_retried:
  assumes "truthy_str (AUDIO_FILE_ID s) = None"
    and "from_user m = Some u"
    and "\<not> fst (throttled now u (LAST_ACTION_AT s))"
    and "answer p WELCOME_TEXT = None"
    and "answer_audio p (FSInputFile (audio_path cfg)) VoiceCaption (main_kb (pre_save_url cfg) (channel_url cfg)) = Inl e
         \<or> (\<exists>msg. answer_audio p (FSInputFile (audio_path cfg)) VoiceCaption (main_kb (pre_save_url cfg) (channel_url cfg)) = Inr msg
               \<and> audio msg = None)"
    and "s' = fst (on_start cfg p now m s)"
  shows "AUDIO_FILE_ID s' = AUDIO_FILE_ID s \<and> truthy_str (AUDIO_FILE_ID s') = None
    \<and> (\<forall>p' now' m' u'. from_user m' = Some u' \<and> \<not> fst (throttled now' u' (LAST_ACTION_AT s'))
           \<and> answer p' WELCOME_TEXT = None \<longrightarrow>
         filter is_audio (snd (snd (on_start cfg p' now' m' s'))) =
           [AnswerAudio (FSInputFile (audio_path cfg)) VoiceCaption (main_kb (pre_save_url cfg) (channel_url cfg))])
    \<and> (\<forall>p' now' m' u'. keyword m' = ''096'' \<and> from_user m' = Some u'
           \<and> \<not> fst (throttled now' u' (LAST_ACTION_AT s')) \<longrightarrow>
         snd (snd (on_keyword cfg p' now' m' s')) =
           [AnswerAudio (FSInputFile (audio_path cfg)) VoiceCaption (main_kb (pre_save_url cfg) (channel_url cfg))])"
proof -
  let ?kb = "main_kb (pre_save_url cfg) (channel_url cfg)"
  let ?s2 = "s\<lparr>USERS := finsert u (USERS s), LAST_ACTION_AT := (LAST_ACTION_AT s)(u \<mapsto> now)\<rparr>"
  from assms(1) have "truthy_str (AUDIO_FILE_ID ?s2) = None" by simp
  from send_voice_upload_fails(1) [OF this assms(5)]
  have "fst (send_voice cfg p ?kb ?s2) = ?s2" .
  with on_start_reaches(1) [OF assms(2,3,4), of cfg] assms(6) have s': "s' = ?s2" by simp
  then have id: "AUDIO_FILE_ID s' = AUDIO_FILE_ID s" by simp
  with assms(1) have unset: "truthy_str (AUDIO_FILE_ID s') = None" by simp
  then have src: "voice_source cfg s' = FSInputFile (audio_path cfg)"
    by (simp add: voice_source_def)
  from id unset src show ?thesis
    using on_start_reaches(2) [of _ _ _ s' _ cfg] on_keyword_reaches(2) [of _ _ _ s' cfg]
    by auto
qed

theorem failed_upload_is_retried_witness:
  "AUDIO_FILE_ID (fst (on_start cfg0 p_audio_fail 100 (msg_from 7 ''/start'') initial_state)) = None
   \<and> snd (snd (on_keyword cfg0 p_ok 106 (msg_from 7 ''096'')
        (fst (on_start cfg0 p_audio_fail 100 (msg_from 7 ''/start'') initial_state))))
      = [AnswerAudio (FSInputFile default_audio_path) VoiceCaption kb0]"
proof -
  let ?s' = "fst (on_start cfg0 p_audio_fail 100 (msg_from 7 ''/start'') initial_state)"
  have 1: "truthy_str (AUDIO_FILE_ID initial_state) = None"
    by (simp add: initial_state_def truthy_str_def)
  have 2: "from_user (msg_from 7 ''/start'') = Some 7"
    by (simp add: msg_from_def)
  have 3: "\<not> fst (throttled 100 7 (LAST_ACTION_AT initial_state))"
    by (simp add: throttled_def initial_state_def THROTTLE_SECONDS_def)
  have 4: "answer p_audio_fail WELCOME_TEXT = None"
    by (simp add: p_audio_fail_def)
  have 5: "answer_audio p_audio_fail (FSInputFile (audio_path cfg0)) VoiceCaption
             (main_kb (pre_save_url cfg0) (channel_url cfg0)) = Inl (SendError ''timeout'')
         \<or> (\<exists>msg. answer_audio p_audio_fail (FSInputFile (audio_path cfg0)) VoiceCaption
             (main_kb (pre_save_url cfg0) (channel_url cfg0)) = Inr msg \<and> audio msg = None)"
    by (simp add: p_audio_fail_def)
  note r = failed_upload_is_retried [OF 1 2 3 4 5 refl]
  have k: "keyword (msg_from 7 ''096'') = ''096''"
    by (simp add: msg_from_def keyword_defs)
  have f: "from_user (msg_from 7 ''096'') = Some 7"
    by (simp add: msg_from_def)
  have l: "LAST_ACTION_AT ?s' = [7 \<mapsto> 100]"
    by (simp add: on_start_LAST [OF 2] throttled_def initial_state_def THROTTLE_SECONDS_def)
  have t: "\<not> fst (throttled 106 7 (LAST_ACTION_AT ?s'))"
    by (simp add: l throttled_def THROTTLE_SECONDS_def)
  from r have a: "AUDIO_FILE_ID ?s' = AUDIO_FILE_ID initial_state" by blast
  from r k f t have b: "snd (snd (on_keyword cfg0 p_ok 106 (msg_from 7 ''096'') ?s')) =
     [AnswerAudio (FSInputFile (audio_path cfg0)) VoiceCaption (main_kb (pre_save_url cfg0) (channel_url cfg0))]"
    by blast
  from a b show ?thesis
    by (simp add: initial_state_def cfg0_def kb0_def)
qed

section \<open>The throttle is not rolled back\<close>

text \<open>
  Claim C10. A start or keyword event of user \<open>u\<close> is admitted at time \<open>now\<close>, and the
  audio send of that invocation raises. Then \<open>now\<close> is the user's last action time when the
  handler ends (whether it returns or raises), every check of \<open>u\<close> at a time \<open>now'\<close> with
  \<open>now' - now < 5\<close> rejects, and the only audio call the handler made is the one that raised.
\<close>

theorem throttle_kept_on_failure:
  assumes "from_user m = Some u"
    and "\<not> fst (throttled now u (LAST_ACTION_AT s))"
    and "answer_audio p (voice_source cfg s) VoiceCaption (main_kb (pre_save_url cfg) (channel_url cfg)) = Inl e"
    and "r = on_start cfg p now m s \<or> (keyword m = ''096'' \<and> r = on_keyword cfg p now m s)"
  shows "LAST_ACTION_AT (fst r) u = Some now
    \<and> (\<forall>now'. now' - now < 5 \<longrightarrow> fst (throttled now' u (LAST_ACTION_AT (fst r))))
    \<and> (\<forall>a \<in> set (snd (snd r)). is_audio a \<longrightarrow>
          a = AnswerAudio (voice_source cfg s) VoiceCaption (main_kb (pre_save_url cfg) (channel_url cfg)))"
proof -
  from assms(2) have t: "snd (throttled now u (LAST_ACTION_AT s)) u = Some now"
    by (rule throttled_admitted_records)
  from assms(1,4) have "LAST_ACTION_AT (fst r) = snd (throttled now u (LAST_ACTION_AT s))"
    using on_start_LAST [of m u cfg p now s] on_keyword_LAST [of m u cfg p now s] by auto
  with t have l: "LAST_ACTION_AT (fst r) u = Some now" by simp
  then have w: "\<forall>now'. now' - now < 5 \<longrightarrow> fst (throttled now' u (LAST_ACTION_AT (fst r)))"
    by (simp add: throttled_after_admission)
  have "audio_step cfg p s r"
    using assms(4) on_start_audio_step [of cfg p s now m] on_keyword_audio_step [of cfg p s now m]
    by auto
  then have "\<forall>a \<in> set (snd (snd r)). is_audio a \<longrightarrow>
          a = AnswerAudio (voice_source cfg s) VoiceCaption (main_kb (pre_save_url cfg) (channel_url cfg))"
    using audio_step_calls by blast
  with l w show ?thesis by blast
qed

theorem throttle_kept_on_failure_witness:
  "LAST_ACTION_AT (fst (on_keyword cfg0 p_audio_fail 100 (msg_from 7 ''096'') initial_state)) 7 = Some 100
   \<and> fst (throttled 104 7 (LAST_ACTION_AT (fst (on_keyword cfg0 p_audio_fail 100 (msg_from 7 ''096'') initial_state))))
   \<and> LAST_ACTION_AT (fst (on_start cfg0 p_audio_fail 100 (msg_from 7 ''/start'') initial_state)) 7 = Some 100
   \<and> fst (throttled 104 7 (LAST_ACTION_AT (fst (on_start cfg0 p_audio_fail 100 (msg_from 7 ''/start'') initial_state))))"
proof -
  have 1: "from_user (msg_from 7 t) = Some 7" for t
    by (simp add: msg_from_def)
  have 2: "\<not> fst (throttled 100 7 (LAST_ACTION_AT initial_state))"
    by (simp add: throttled_def initial_state_def THROTTLE_SECONDS_def)
  have 3: "answer_audio p_audio_fail (voice_source cfg0 initial_state) VoiceCaption
             (main_kb (pre_save_url cfg0) (channel_url cfg0)) = Inl (SendError ''timeout'')"
    by (simp add: p_audio_fail_def)
  have k: "keyword (msg_from 7 ''096'') = ''096''"
    by (simp add: msg_from_def keyword_defs)
  have d: "(104::real) - 100 < 5" by simp
  have a: "on_keyword cfg0 p_audio_fail 100 (msg_from 7 ''096'') initial_state
             = on_start cfg0 p_audio_fail 100 (msg_from 7 ''096'') initial_state
           \<or> (keyword (msg_from 7 ''096'') = ''096''
              \<and> on_keyword cfg0 p_audio_fail 100 (msg_from 7 ''096'') initial_state
                 = on_keyword cfg0 p_audio_fail 100 (msg_from 7 ''096'') initial_state)"
    using k by simp
  have b: "on_start cfg0 p_audio_fail 100 (msg_from 7 ''/start'') initial_state
             = on_start cfg0 p_audio_fail 100 (msg_from 7 ''/start'') initial_state
           \<or> (keyword (msg_from 7 ''/start'') = ''096''
              \<and> on_start cfg0 p_audio_fail 100 (msg_from 7 ''/start'') initial_state
                 = on_keyword cfg0 p_audio_fail 100 (msg_from 7 ''/start'') initial_state)"
    by simp
  from throttle_kept_on_failure [OF 1 2 3 a] throttle_kept_on_failure [OF 1 2 3 b] d
  show ?thesis by blast
qed

section \<open>The set of known users\<close>

lemma invoke_USERS_mono: "USERS s |\<subseteq>| USERS (fst (invoke cfg i s))"
proof -
  obtain h p now m where i: "i = (h, p, now, m)" by (cases i) auto
  show ?thesis
    by (cases h)
      (auto simp: i on_start_USERS on_help_state on_stats_state on_keyword_USERS split: option.splits)
qed

lemma invoke_USERS_other: "fst i \<noteq> OnStart \<Longrightarrow> USERS (fst (invoke cfg i s)) = USERS s"
proof -
  assume a: "fst i \<noteq> OnStart"
  obtain h p now m where i: "i = (h, p, now, m)" by (cases i) auto
  with a show ?thesis
    by (cases h) (simp_all add: on_help_state on_stats_state on_keyword_USERS)
qed

lemma run_USERS_mono: "USERS s |\<subseteq>| USERS (fst (run cfg js s))"
proof (induction js arbitrary: s)
  case Nil
  show ?case by simp
next
  case (Cons i js)
  have "USERS s |\<subseteq>| USERS (fst (invoke cfg i s))" by (rule invoke_USERS_mono)
  also have "\<dots> |\<subseteq>| USERS (fst (run cfg js (fst (invoke cfg i s))))" by (rule Cons.IH)
  finally show ?case by (simp add: Let_def)
qed

lemma run_USERS_other:
  "\<forall>i \<in> set js. fst i \<noteq> OnStart \<Longrightarrow> USERS (fst (run cfg js s)) = USERS s"
  by (induction js arbitrary: s) (simp_all add: Let_def invoke_USERS_other)

text \<open>
  Claim C7. \<^verbatim>\<open>on_start\<close> adds the sender to \<^verbatim>\<open>USERS\<close> whatever the throttle decides and
  whatever the platform does; \<^verbatim>\<open>on_help\<close>, \<^verbatim>\<open>on_stats\<close> and \<^verbatim>\<open>on_keyword\<close> leave \<^verbatim>\<open>USERS\<close> as
  it is. Over any sequence of invocations the set only grows, and so does its size, which
  is the number that \<^verbatim>\<open>on_stats\<close> reports; a sequence without \<^verbatim>\<open>on_start\<close> leaves it
  unchanged.
\<close>

theorem users_grow_only_by_start:
  "(\<forall>p now m (s::state) u. from_user m = Some u \<longrightarrow>
       USERS (fst (on_start cfg p now m s)) = finsert u (USERS s))
   \<and> (\<forall>p m (s::state). USERS (fst (on_help p m s)) = USERS s)
   \<and> (\<forall>p m (s::state). USERS (fst (on_stats cfg p m s)) = USERS s)
   \<and> (\<forall>p now m (s::state). USERS (fst (on_keyword cfg p now m s)) = USERS s)
   \<and> (\<forall>js (s::state). USERS s |\<subseteq>| USERS (fst (run cfg js s))
         \<and> fcard (USERS s) \<le> fcard (USERS (fst (run cfg js s))))
   \<and> (\<forall>js (s::state). (\<forall>i \<in> set js. fst i \<noteq> OnStart) \<longrightarrow> USERS (fst (run cfg js s)) = USERS s)"
  by (simp add: on_start_USERS on_help_state on_stats_state on_keyword_USERS run_USERS_mono
        run_USERS_other fcard_mono)

theorem users_grow_only_by_start_witness:
  "USERS (fst (on_start cfg0 p_ok 100 (msg_from 7 ''/start'') initial_state)) = {|7|}
   \<and> USERS (fst (on_start cfg0 p_ok 101 (msg_from 7 ''/start'')
        (fst (on_start cfg0 p_ok 100 (msg_from 8 ''/start'') initial_state)))) = {|7, 8|}
   \<and> USERS (fst (run cfg0 [(OnKeyword, p_ok, 100, msg_from 7 ''096''), (OnStats, p_ok, 101, msg_from 1 ''/stats'')]
        initial_state)) = {||}"
proof -
  note inst = users_grow_only_by_start [of cfg0]
  have f: "from_user (msg_from u t) = Some u" for u t
    by (simp add: msg_from_def)
  from inst have "\<forall>p now m (s::state) u. from_user m = Some u \<longrightarrow>
       USERS (fst (on_start cfg0 p now m s)) = finsert u (USERS s)"
    by (rule conjunct1)
  with f have a: "USERS (fst (on_start cfg0 p now (msg_from u t) s)) = finsert u (USERS s)" for p now u t s
    by simp
  have n: "\<forall>i \<in> set [(OnKeyword, p_ok, 100::real, msg_from 7 ''096''), (OnStats, p_ok, 101, msg_from 1 ''/stats'')].
             fst i \<noteq> OnStart"
    by simp
  note other = inst [THEN conjunct2, THEN conjunct2, THEN conjunct2, THEN conjunct2, THEN conjunct2,
      THEN spec, THEN spec, THEN mp, OF n]
  then have b: "USERS (fst (run cfg0 [(OnKeyword, p_ok, 100, msg_from 7 ''096''),
      (OnStats, p_ok, 101, msg_from 1 ''/stats'')] initial_state)) = USERS initial_state" .
  from a b show ?thesis
    by (simp add: initial_state_def)
qed

section \<open>The keyword\<close>

lemma lower_char_code:
  "of_char (lower_char c) = (48::nat) \<longleftrightarrow> of_char c = (48::nat)"
  "of_char (lower_char c) = (57::nat) \<longleftrightarrow> of_char c = (57::nat)"
  "of_char (lower_char c) = (54::nat) \<longleftrightarrow> of_char c = (54::nat)"
  by (auto simp: lower_char_def Let_def)

lemma lower_char_digit:
  "lower_char c = CHR ''0'' \<longleftrightarrow> c = CHR ''0''"
  "lower_char c = CHR ''9'' \<longleftrightarrow> c = CHR ''9''"
  "lower_char c = CHR ''6'' \<longleftrightarrow> c = CHR ''6''"
proof -
  have e: "x = y \<longleftrightarrow> (of_char x :: nat) = of_char y" for x y :: char
    by auto
  show "lower_char c = CHR ''0'' \<longleftrightarrow> c = CHR ''0''"
    using lower_char_code(1) [of c] by (simp add: e [of _ "CHR ''0''"])
  show "lower_char c = CHR ''9'' \<longleftrightarrow> c = CHR ''9''"
    using lower_char_code(2) [of c] by (simp add: e [of _ "CHR ''9''"])
  show "lower_char c = CHR ''6'' \<longleftrightarrow> c = CHR ''6''"
    using lower_char_code(3) [of c] by (simp add: e [of _ "CHR ''6''"])
qed

lemma lower_096: "lower t = ''096'' \<longleftrightarrow> t = ''096''"
  by (auto simp: lower_def lower_char_digit map_eq_Cons_conv)

text \<open>
  Claim C5. The text that \<^verbatim>\<open>on_keyword\<close> compares with \<open>096\<close> is the message text (the
  empty string when there is none), stripped and lowercased; lowercasing never changes
  whether it equals \<open>096\<close>. When it differs, the handler returns with the state it was
  given and without any call. When it is equal, the handler goes on to the throttle check
  and, for an admitted sender, makes exactly one call, the voice send; for a throttled
  sender it returns without a call. The texts \<open>096\<close> and \<open>096\<close> between blanks match,
  \<open>0960\<close> and \<open>96\<close> do not.
\<close>

theorem keyword_triggers_voice:
  "(keyword m = ''096'' \<longleftrightarrow> strip (case msg_text m of None \<Rightarrow> [] | Some t \<Rightarrow> t) = ''096'')
   \<and> (keyword m \<noteq> ''096'' \<longrightarrow> on_keyword cfg p now m s = (s, Returned, []))
   \<and> (\<forall>u. keyword m = ''096'' \<and> from_user m = Some u \<and> \<not> fst (throttled now u (LAST_ACTION_AT s)) \<longrightarrow>
         snd (snd (on_keyword cfg p now m s)) =
           [AnswerAudio (voice_source cfg s) VoiceCaption (main_kb (pre_save_url cfg) (channel_url cfg))])
   \<and> (\<forall>u. keyword m = ''096'' \<and> from_user m = Some u \<and> fst (throttled now u (LAST_ACTION_AT s)) \<longrightarrow>
         on_keyword cfg p now m s = (s, Returned, []))
   \<and> keyword (msg_from v ''096'') = ''096'' \<and> keyword (msg_from v '' 096 '') = ''096''
   \<and> keyword (msg_from v ''0960'') \<noteq> ''096'' \<and> keyword (msg_from v ''96'') \<noteq> ''096''"
proof -
  have 1: "keyword m = ''096'' \<longleftrightarrow> strip (case msg_text m of None \<Rightarrow> [] | Some t \<Rightarrow> t) = ''096''"
    by (simp add: keyword_def lower_096)
  have 2: "keyword m \<noteq> ''096'' \<longrightarrow> on_keyword cfg p now m s = (s, Returned, [])"
    by (simp add: on_keyword_def)
  have 3: "\<forall>u. keyword m = ''096'' \<and> from_user m = Some u \<and> \<not> fst (throttled now u (LAST_ACTION_AT s)) \<longrightarrow>
         snd (snd (on_keyword cfg p now m s)) =
           [AnswerAudio (voice_source cfg s) VoiceCaption (main_kb (pre_save_url cfg) (channel_url cfg))]"
    using on_keyword_reaches(2) [of m _ now s cfg p] by blast
  have 4: "\<forall>u. keyword m = ''096'' \<and> from_user m = Some u \<and> fst (throttled now u (LAST_ACTION_AT s)) \<longrightarrow>
         on_keyword cfg p now m s = (s, Returned, [])"
    by (auto simp: on_keyword_def Let_def throttled_rejected_unchanged)
  have 5: "keyword (msg_from v ''096'') = ''096'' \<and> keyword (msg_from v '' 096 '') = ''096''
   \<and> keyword (msg_from v ''0960'') \<noteq> ''096'' \<and> keyword (msg_from v ''96'') \<noteq> ''096''"
    by (simp add: msg_from_def keyword_defs)
  from 1 2 3 4 5 show ?thesis by blast
qed

theorem keyword_triggers_voice_witness:
  "on_keyword cfg0 p_ok 100 (msg_from 7 ''0960'') initial_state = (initial_state, Returned, [])
   \<and> snd (snd (on_keyword cfg0 p_ok 100 (msg_from 7 '' 096 '') initial_state))
       = [AnswerAudio (FSInputFile default_audio_path) VoiceCaption kb0]"
proof -
  note a = keyword_triggers_voice [of "msg_from 7 ''0960''" cfg0 p_ok 100 initial_state 7]
  note b = keyword_triggers_voice [of "msg_from 7 '' 096 ''" cfg0 p_ok 100 initial_state 7]
  from a have a1: "keyword (msg_from 7 ''0960'') \<noteq> ''096''" by blast
  with a have a2: "on_keyword cfg0 p_ok 100 (msg_from 7 ''0960'') initial_state = (initial_state, Returned, [])"
    by blast
  from b have b1: "keyword (msg_from 7 '' 096 '') = ''096''" by blast
  have b2: "from_user (msg_from 7 '' 096 '') = Some 7"
    by (simp add: msg_from_def)
  have b3: "\<not> fst (throttled 100 7 (LAST_ACTION_AT initial_state))"
    by (simp add: throttled_def initial_state_def THROTTLE_SECONDS_def)
  from b b1 b2 b3 have "snd (snd (on_keyword cfg0 p_ok 100 (msg_from 7 '' 096 '') initial_state)) =
     [AnswerAudio (voice_source cfg0 initial_state) VoiceCaption (main_kb (pre_save_url cfg0) (channel_url cfg0))]"
    by blast
  with a2 show ?thesis
    by (simp add: voice_source_def truthy_str_def initial_state_def cfg0_def kb0_def)
qed

section \<open>Loading the configuration\<close>



lemma isdecimal_isdigit: "isdecimal_char c \<Longrightarrow> isdigit_char c"
  by (simp add: isdecimal_char_def isdigit_char_def Let_def)



section \<open>Failures of the audio send\<close>

text \<open>
  In \<^verbatim>\<open>on_start\<close> an exception of the audio send that derives from \<^verbatim>\<open>Exception\<close> is
  caught: the handler sends the retry text and, for an administrator that is present and
  not zero, the diagnostic text with the exception; it returns when these calls return.
\<close>

lemma on_start_catches:
  assumes "from_user m = Some u"
    and "\<not> fst (throttled now u (LAST_ACTION_AT s))"
    and "answer p WELCOME_TEXT = None"
    and "answer_audio p (voice_source cfg s) VoiceCaption (main_kb (pre_save_url cfg) (channel_url cfg)) = Inl e"
    and "is_Exception e"
  shows "snd (on_start cfg p now m s) =
           snd (on_start_except cfg p e s
             [Answer WELCOME_TEXT,
              AnswerAudio (voice_source cfg s) VoiceCaption (main_kb (pre_save_url cfg) (channel_url cfg))])"
proof -
  let ?kb = "main_kb (pre_save_url cfg) (channel_url cfg)"
  let ?s2 = "s\<lparr>USERS := finsert u (USERS s), LAST_ACTION_AT := snd (throttled now u (LAST_ACTION_AT s))\<rparr>"
  have "voice_source cfg ?s2 = voice_source cfg s" by simp
  with assms(4) have "send_voice cfg p ?kb ?s2 = (?s2, Some e, [AnswerAudio (voice_source cfg s) VoiceCaption ?kb])"
    using send_voice_failure [of p cfg ?s2 ?kb e] by simp
  with assms(1,2,3,5) show ?thesis
    by (simp add: on_start_def Let_def on_start_except_def split: option.splits)
qed

lemma on_start_catches_returns:
  assumes "from_user m = Some u"
    and "\<not> fst (throttled now u (LAST_ACTION_AT s))"
    and "answer p WELCOME_TEXT = None"
    and "answer_audio p (voice_source cfg s) VoiceCaption (main_kb (pre_save_url cfg) (channel_url cfg)) = Inl e"
    and "is_Exception e"
    and "answer p RetryText = None"
    and "admin_id cfg = Some a" and "a \<noteq> 0"
    and "send_message p a (AudioErrorText e) = None"
  shows "snd (on_start cfg p now m s) =
           (Returned,
            [Answer WELCOME_TEXT,
             AnswerAudio (voice_source cfg s) VoiceCaption (main_kb (pre_save_url cfg) (channel_url cfg)),
             Answer RetryText, SendMessage a (AudioErrorText e)])"
  using on_start_catches [OF assms(1-5)] assms(6-9)
  by (simp add: on_start_except_def truthy_int_def)

text \<open>
  Claim C3 fails on the keyword path: \<^verbatim>\<open>on_keyword\<close> has no \<^verbatim>\<open>try\<close>. With the audio send
  raising, the handler ends with that exception after the single audio call: no retry text
  for the user, no diagnostic text for the administrator 1.
\<close>

theorem on_keyword_lets_failure_escape:
  "on_keyword cfg0 p_audio_fail 100 (msg_from 7 ''096'') initial_state =
     (initial_state\<lparr>LAST_ACTION_AT := [7 \<mapsto> 100]\<rparr>, Raised (SendError ''timeout''),
      [AnswerAudio (FSInputFile default_audio_path) VoiceCaption kb0])"
  by (simp add: concrete_defs handler_defs keyword_defs)

section \<open>The administrator's command\<close>

text \<open>
  For an administrator that is present and not zero, \<^verbatim>\<open>on_stats\<close> answers the sender who
  is the administrator with the number of known users and everybody else with the refusal.
\<close>

lemma on_stats_nonzero_admin:
  assumes "admin_id cfg = Some a" and "a \<noteq> 0" and "from_user m = Some u"
  shows "snd (snd (on_stats cfg p m s)) =
           [Answer (if u = a then UsersText (fcard (USERS s)) else AdminOnlyText)]"
  using assms by (simp add: on_stats_def truthy_int_def reply_def split: option.splits)

lemma on_stats_no_admin:
  "admin_id cfg = None \<Longrightarrow> snd (snd (on_stats cfg p m s)) = [Answer AdminOnlyText]"
  by (simp add: on_stats_def truthy_int_def reply_def split: option.splits)

text \<open>
  Claim C6 fails for the administrator 0: \<^verbatim>\<open>cfg.admin_id and ...\<close> is false for 0, so
  the sender 0, who is the configured administrator, gets the refusal and not the count 3.
\<close>

theorem on_stats_refuses_admin_zero:
  "on_stats cfg_admin0 p_ok (msg_from 0 ''/stats'') state3 = (state3, Returned, [Answer AdminOnlyText])"
  by (simp add: cfg_admin0_def cfg0_def p_ok_def msg_from_def on_stats_def truthy_int_def reply_def)

section \<open>The notification of the administrator\<close>

text \<open>
  Claim C8 as stated fails: with the audio send raising and the message to the
  administrator raising too, \<^verbatim>\<open>on_start\<close> ends with the second exception.
\<close>

theorem admin_notification_failure_escapes_counterexample:
  "fst (snd (on_start cfg0 p_admin_fail 100 (msg_from 7 ''/start'') initial_state))
     = Raised (SendError ''chat not found'')"
  by (simp add: concrete_defs handler_defs)

text \<open>
  Claim C8, amended. A start event is admitted, its welcome text is sent, the audio send
  raises an exception \<open>e\<close> that derives from \<^verbatim>\<open>Exception\<close>, the retry text is sent, and the
  administrator \<open>a\<close> is present and not zero. Then the handler calls \<^verbatim>\<open>send_message\<close> for
  \<open>a\<close> with the diagnostic text of \<open>e\<close> as its last call, and if that call raises \<open>e'\<close>, the
  handler ends with \<open>e'\<close>: the failure of the notification is not swallowed.
\<close>

theorem admin_notification_failure_escapes:
  assumes "from_user m = Some u"
    and "\<not> fst (throttled now u (LAST_ACTION_AT s))"
    and "answer p WELCOME_TEXT = None"
    and "answer_audio p (voice_source cfg s) VoiceCaption (main_kb (pre_save_url cfg) (channel_url cfg)) = Inl e"
    and "is_Exception e"
    and "answer p RetryText = None"
    and "admin_id cfg = Some a" and "a \<noteq> 0"
    and "send_message p a (AudioErrorText e) = Some e'"
  shows "snd (on_start cfg p now m s) =
           (Raised e',
            [Answer WELCOME_TEXT,
             AnswerAudio (voice_source cfg s) VoiceCaption (main_kb (pre_save_url cfg) (channel_url cfg)),
             Answer RetryText, SendMessage a (AudioErrorText e)])"
  using on_start_catches [OF assms(1-5)] assms(6-9)
  by (simp add: on_start_except_def truthy_int_def)

theorem admin_notification_failure_escapes_witness:
  "snd (on_start cfg0 p_admin_fail 100 (msg_from 7 ''/start'') initial_state) =
     (Raised (SendError ''chat not found''),
      [Answer WELCOME_TEXT, AnswerAudio (FSInputFile default_audio_path) VoiceCaption kb0,
       Answer RetryText, SendMessage 1 (AudioErrorText (SendError ''timeout''))])"
proof -
  have 1: "from_user (msg_from 7 ''/start'') = Some 7"
    by (simp add: msg_from_def)
  have 2: "\<not> fst (throttled 100 7 (LAST_ACTION_AT initial_state))"
    by (simp add: throttled_def initial_state_def THROTTLE_SECONDS_def)
  have 3: "answer p_admin_fail WELCOME_TEXT = None"
    by (simp add: p_admin_fail_def)
  have 4: "answer_audio p_admin_fail (voice_source cfg0 initial_state) VoiceCaption
             (main_kb (pre_save_url cfg0) (channel_url cfg0)) = Inl (SendError ''timeout'')"
    by (simp add: p_admin_fail_def)
  have 5: "is_Exception (SendError ''timeout'')"
    by simp
  have 6: "answer p_admin_fail RetryText = None"
    by (simp add: p_admin_fail_def)
  have 7: "admin_id cfg0 = Some 1" and 8: "(1::int) \<noteq> 0"
    by (simp_all add: cfg0_def)
  have 9: "send_message p_admin_fail 1 (AudioErrorText (SendError ''timeout'')) = Some (SendError ''chat not found'')"
    by (simp add: p_admin_fail_def)
  from admin_notification_failure_escapes [OF 1 2 3 4 5 6 7 8 9]
  show ?thesis
    by (simp add: voice_source_def truthy_str_def initial_state_def cfg0_def kb0_def)
qed

end
